theory Spec2Isabelle
  imports Main
begin

section \<open>Data model of the connection pool\<close>

text \<open>
  The development embeds \<^verbatim>\<open>include/boost/mysql/impl/connection_pool.hpp\<close>: the setup
  coroutine of a pooled connection (\<^verbatim>\<open>pooled_connection::setup_op\<close>), the bounded wait
  on the pool's condition variable (\<^verbatim>\<open>detail::initiate_wait\<close>) and the coroutine behind
  \<^verbatim>\<open>connection_pool::async_get_connection\<close> (\<^verbatim>\<open>get_connection_op\<close>).

  C++ member names end in an underscore, which is not a legal end of an Isabelle name;
  the fields below drop it (\<^verbatim>\<open>state_\<close> is \<open>state\<close>, \<^verbatim>\<open>locked_\<close> is \<open>locked\<close>).
\<close>

subsection \<open>Error codes\<close>

text \<open>
  \<^verbatim>\<open>error_code\<close> is \<^verbatim>\<open>boost::system::error_code\<close>. The pool only builds three values itself,
  \<^verbatim>\<open>error_code()\<close>, \<^verbatim>\<open>client_errc::pool_retries_exhausted\<close> and
  \<^verbatim>\<open>boost::asio::error::operation_aborted\<close>; every other code comes from an asynchronous
  operation. \<^verbatim>\<open>if (err)\<close> tests for a code other than the default-constructed one.
\<close>

datatype error_code =
    no_error
  | pool_retries_exhausted
  | operation_aborted
  | other_error nat

definition failed :: "error_code \<Rightarrow> bool" where
  "failed ec = (ec \<noteq> no_error)"

subsection \<open>The objects owned by a pooled connection\<close>

type_synonym executor = nat
type_synonym ssl_context = nat
type_synonym endpoint = string
type_synonym handshake_params = string
type_synonym diagnostics = string

text \<open>
  A session (\<^verbatim>\<open>tcp_ssl_connection\<close>), a resolver and a timer are opaque to the pool. Each
  is modelled by what it was constructed from and by the operations started on it since
  its construction, so that a freshly constructed object is told apart from one that has
  been used.
\<close>

datatype conn_call =
    async_connect endpoint handshake_params
  | async_ping
  | async_close

record tcp_ssl_connection =
  conn_executor :: executor
  conn_ssl_ctx :: ssl_context
  conn_calls :: "conn_call list"

record resolver =
  resolver_executor :: executor
  resolver_calls :: "(string \<times> string) list"

record steady_timer =
  timer_executor :: executor
  expiry :: "nat option"
  waits :: nat

definition new_tcp_ssl_connection :: "executor \<Rightarrow> ssl_context \<Rightarrow> tcp_ssl_connection" where
  "new_tcp_ssl_connection ex ctx = \<lparr>conn_executor = ex, conn_ssl_ctx = ctx, conn_calls = []\<rparr>"

definition new_resolver :: "executor \<Rightarrow> resolver" where
  "new_resolver ex = \<lparr>resolver_executor = ex, resolver_calls = []\<rparr>"

definition new_steady_timer :: "executor \<Rightarrow> steady_timer" where
  "new_steady_timer ex = \<lparr>timer_executor = ex, expiry = None, waits = 0\<rparr>"

text \<open>\<^verbatim>\<open>expires_after\<close> takes a duration, here in milliseconds; \<^verbatim>\<open>async_wait\<close> starts a wait.\<close>

definition expires_after :: "nat \<Rightarrow> steady_timer \<Rightarrow> steady_timer" where
  "expires_after ms t = t\<lparr>expiry := Some ms\<rparr>"

definition timer_async_wait :: "steady_timer \<Rightarrow> steady_timer" where
  "timer_async_wait t = t\<lparr>waits := Suc (waits t)\<rparr>"

subsection \<open>Pool entries and the pool\<close>

datatype state_t = not_connected | iddle | pending_reset | in_use

record pooled_connection =
  state :: state_t
  locked :: bool
  conn :: tcp_ssl_connection
  resolver :: resolver
  timer :: steady_timer

record connect_params =
  hostname :: string
  port :: string
  hparams :: handshake_params

text \<open>
  The pool, as far as the coroutines read it: its executor, the shared TLS context, the
  connection parameters and the entries. A \<^verbatim>\<open>pooled_connection*\<close> into the pool is an
  index into \<open>conns\<close>, the null pointer is \<open>None\<close>. The mutex and the condition variable
  only order tasks and carry no data.
\<close>

record connection_pool =
  pool_executor :: executor
  ssl_ctx :: ssl_context
  how_to_connect :: connect_params
  conns :: "pooled_connection list"

text \<open>The constructor \<^verbatim>\<open>pooled_connection(connection_pool& p)\<close>, given the initial value
  of the two bookkeeping members.\<close>

definition new_pooled_connection ::
    "connection_pool \<Rightarrow> state_t \<Rightarrow> bool \<Rightarrow> pooled_connection" where
  "new_pooled_connection p st l =
     \<lparr>state = st, locked = l,
      conn = new_tcp_ssl_connection (pool_executor p) (ssl_ctx p),
      resolver = new_resolver (pool_executor p),
      timer = new_steady_timer (pool_executor p)\<rparr>"

subsection \<open>Completions of asynchronous operations\<close>

text \<open>
  A coroutine is resumed by the completion of the operation it yielded on. A run of a
  coroutine is driven by a script: the list of the completions it is resumed with, in
  order. A completion carries the error code, the endpoints (read after a resolve), what
  the operation left in the diagnostics object (read after a connect), and, for the
  parallel group of the bounded wait, the completion order and the second error code.
  A script that ends at a yield leaves the coroutine suspended.
\<close>

record completion =
  err :: error_code
  endpoints :: "endpoint list"
  diag_out :: diagnostics
  completion_order :: "nat \<times> nat"
  err2 :: error_code

definition done_with :: "error_code \<Rightarrow> completion" where
  "done_with ec =
     \<lparr>err = ec, endpoints = [], diag_out = [], completion_order = (0, 1), err2 = no_error\<rparr>"

definition resolved :: "endpoint list \<Rightarrow> completion" where
  "resolved eps = (done_with no_error)\<lparr>endpoints := eps\<rparr>"

definition connect_failed :: "error_code \<Rightarrow> diagnostics \<Rightarrow> completion" where
  "connect_failed ec msg = (done_with ec)\<lparr>diag_out := msg\<rparr>"

definition group_done :: "nat \<times> nat \<Rightarrow> error_code \<Rightarrow> error_code \<Rightarrow> completion" where
  "group_done ord ec1 ec2 = (done_with ec1)\<lparr>completion_order := ord, err2 := ec2\<rparr>"

text \<open>How a run of a coroutine ends.\<close>

datatype 'a outcome =
    Completed error_code 'a
  | Suspended 'a
  | Assertion_failed
  | Undefined_behaviour

text \<open>The error code a run completed with, when it completed.\<close>

fun completion_code :: "'a outcome \<Rightarrow> error_code option" where
  "completion_code (Completed ec x) = Some ec"
| "completion_code (Suspended x) = None"
| "completion_code Assertion_failed = None"
| "completion_code Undefined_behaviour = None"

section \<open>The setup coroutine\<close>

record setup_op =
  op_conn :: pooled_connection
  op_diag :: diagnostics
  num_tries :: nat
  op_g :: bool

definition max_num_tries :: nat where
  "max_num_tries = 10"

definition between_tries :: nat where
  "between_tries = 1000"

text \<open>\<^verbatim>\<open>setup_op(conn, diag)\<close>: the guard \<^verbatim>\<open>g_\<close> holds the pointer to the entry.\<close>

definition new_setup_op :: "pooled_connection \<Rightarrow> diagnostics \<Rightarrow> setup_op" where
  "new_setup_op c d = \<lparr>op_conn = c, op_diag = d, num_tries = 0, op_g = True\<rparr>"

text \<open>\<^verbatim>\<open>g_.reset()\<close> runs the deleter on the pointer the guard holds, if any, and leaves
  the guard empty; the deleter clears \<^verbatim>\<open>locked_\<close>.\<close>

definition g_reset :: "setup_op \<Rightarrow> setup_op" where
  "g_reset s =
     (if op_g s then s\<lparr>op_conn := (op_conn s)\<lparr>locked := False\<rparr>, op_g := False\<rparr> else s)"

definition complete :: "error_code \<Rightarrow> setup_op \<Rightarrow> setup_op outcome" where
  "complete ec s = Completed ec (g_reset s)"

definition complete_ok :: "setup_op \<Rightarrow> setup_op outcome" where
  "complete_ok s =
     complete no_error (s\<lparr>op_conn := (op_conn s)\<lparr>state := in_use\<rparr>, op_diag := []\<rparr>)"

text \<open>Operations started on the members of the entry.\<close>

definition start_resolve :: "connection_pool \<Rightarrow> setup_op \<Rightarrow> setup_op" where
  "start_resolve p s =
     s\<lparr>op_conn := (op_conn s)\<lparr>resolver := (resolver (op_conn s))
        \<lparr>resolver_calls := resolver_calls (resolver (op_conn s))
            @ [(hostname (how_to_connect p), port (how_to_connect p))]\<rparr>\<rparr>\<rparr>"

definition start_conn_call :: "conn_call \<Rightarrow> setup_op \<Rightarrow> setup_op" where
  "start_conn_call c s =
     s\<lparr>op_conn := (op_conn s)\<lparr>conn := (conn (op_conn s))
        \<lparr>conn_calls := conn_calls (conn (op_conn s)) @ [c]\<rparr>\<rparr>\<rparr>"

definition start_sleep :: "setup_op \<Rightarrow> setup_op" where
  "start_sleep s =
     s\<lparr>op_conn := (op_conn s)
        \<lparr>timer := timer_async_wait (expires_after between_tries (timer (op_conn s)))\<rparr>\<rparr>"

text \<open>\<^verbatim>\<open>conn_.conn_ = tcp_ssl_connection(conn_.resolver_.get_executor(), conn_.pool_->ssl_ctx_)\<close>
  followed by \<^verbatim>\<open>conn_.state_ = st_t::not_connected\<close>.\<close>

definition recreate_conn :: "connection_pool \<Rightarrow> setup_op \<Rightarrow> setup_op" where
  "recreate_conn p s =
     s\<lparr>op_conn := (op_conn s)
        \<lparr>conn := new_tcp_ssl_connection (resolver_executor (resolver (op_conn s))) (ssl_ctx p),
         state := not_connected\<rparr>\<rparr>"

text \<open>
  One pass through the body of the \<^verbatim>\<open>for\<close> loop. It ends in \<^verbatim>\<open>continue\<close>, with the
  script that is left, or it leaves the loop: by completing, by staying suspended at a
  yield, or by dereferencing \<^verbatim>\<open>endpoints.begin()\<close> of an empty range.
\<close>

datatype flow =
    Continue setup_op "completion list"
  | Break "setup_op outcome"

definition not_connected_try :: "connection_pool \<Rightarrow> completion list \<Rightarrow> setup_op \<Rightarrow> flow" where
  "not_connected_try p cs s =
     (let s1 = start_resolve p s in
      case cs of
        [] \<Rightarrow> Break (Suspended s1)
      | c1 # cs1 \<Rightarrow>
          if failed (err c1) then
            (let s2 = start_sleep s1 in
             case cs1 of
               [] \<Rightarrow> Break (Suspended s2)
             | c2 # cs2 \<Rightarrow> Continue s2 cs2)
          else
            (case endpoints c1 of
               [] \<Rightarrow> Break Undefined_behaviour
             | e # es \<Rightarrow>
                 (let s3 = start_conn_call (async_connect e (hparams (how_to_connect p))) s1 in
                  case cs1 of
                    [] \<Rightarrow> Break (Suspended s3)
                  | c2 # cs2 \<Rightarrow>
                      (let s4 = s3\<lparr>op_diag := diag_out c2\<rparr> in
                       if failed (err c2) then
                         (let s5 = start_sleep s4 in
                          case cs2 of
                            [] \<Rightarrow> Break (Suspended s5)
                          | c3 # cs3 \<Rightarrow>
                              if failed (err c3) then Break (complete (err c3) s5)
                              else Continue s5 cs3)
                       else Break (complete_ok s4)))))"

definition iddle_try :: "connection_pool \<Rightarrow> completion list \<Rightarrow> setup_op \<Rightarrow> flow" where
  "iddle_try p cs s =
     (let s1 = start_conn_call async_ping s in
      case cs of
        [] \<Rightarrow> Break (Suspended s1)
      | c1 # cs1 \<Rightarrow>
          if failed (err c1) then
            (let s2 = start_conn_call async_close s1 in
             case cs1 of
               [] \<Rightarrow> Break (Suspended s2)
             | c2 # cs2 \<Rightarrow>
                 (let s3 = start_sleep (recreate_conn p s2) in
                  case cs2 of
                    [] \<Rightarrow> Break (Suspended s3)
                  | c3 # cs3 \<Rightarrow>
                      if failed (err c3) then Break (complete (err c3) s3)
                      else Continue s3 cs3))
          else Break (complete_ok s1))"

definition attempt :: "connection_pool \<Rightarrow> completion list \<Rightarrow> setup_op \<Rightarrow> flow" where
  "attempt p cs s =
     (if state (op_conn s) = not_connected then not_connected_try p cs s
      else if state (op_conn s) = pending_reset then Break (complete_ok s)
      else if state (op_conn s) = iddle then iddle_try p cs s
      else Continue s cs)"

text \<open>
  The loop \<^verbatim>\<open>for (; num_tries_ < max_num_tries; ++num_tries_)\<close> and the completion that
  follows it. A pass that completes ends the coroutine (\<^verbatim>\<open>BOOST_ASIO_CORO_YIELD break\<close>),
  so the statement after the loop is reached only when the loop condition fails.
\<close>

function setup_loop :: "connection_pool \<Rightarrow> completion list \<Rightarrow> setup_op \<Rightarrow> setup_op outcome" where
  "setup_loop p cs s =
     (if num_tries s < max_num_tries then
        (case attempt p cs s of
           Continue s' cs' \<Rightarrow> setup_loop p cs' (s'\<lparr>num_tries := Suc (num_tries s')\<rparr>)
         | Break r \<Rightarrow> r)
      else complete pool_retries_exhausted s)"
  by pat_completeness auto
termination
  by (relation "measure (\<lambda>(p, cs, s). max_num_tries - num_tries s)")
     (auto simp: attempt_def not_connected_try_def iddle_try_def Let_def start_resolve_def
        start_conn_call_def start_sleep_def recreate_conn_def
      split: if_splits list.splits)

declare setup_loop.simps [simp del]

text \<open>
  \<^verbatim>\<open>async_setup\<close> builds the operation and runs it up to its first yield: the two
  assertions at the head of the coroutine are evaluated before anything else happens.
\<close>

definition async_setup ::
    "connection_pool \<Rightarrow> pooled_connection \<Rightarrow> diagnostics \<Rightarrow> completion list \<Rightarrow> setup_op outcome" where
  "async_setup p c d cs =
     (let s = new_setup_op c d in
      if state (op_conn s) = in_use then Assertion_failed
      else if \<not> locked (op_conn s) then Assertion_failed
      else setup_loop p cs s)"

section \<open>Waiting on the condition variable with a timeout\<close>

text \<open>\<^verbatim>\<open>wait_timeout\<close> is a number of seconds.\<close>

definition wait_timeout :: nat where
  "wait_timeout = 10"

text \<open>The timer that \<^verbatim>\<open>initiate_wait\<close> allocates on the executor of the condition variable
  and starts, next to the wait on the condition variable, in the parallel group.\<close>

definition initiate_wait_timer :: "executor \<Rightarrow> steady_timer" where
  "initiate_wait_timer cv_executor =
     timer_async_wait (expires_after (wait_timeout * 1000) (new_steady_timer cv_executor))"

text \<open>
  The handler of the parallel group. Operation 0 is the wait on the condition variable,
  operation 1 the timer. The result is what the final handler is called with; the
  \<^verbatim>\<open>switch\<close> has no default, so for any other first index the handler is not called.
\<close>

definition intermediate_handler ::
    "nat \<times> nat \<Rightarrow> error_code \<Rightarrow> error_code \<Rightarrow> error_code option" where
  "intermediate_handler ord ec1 ec2 =
     (if fst ord = 0 then Some ec1
      else if fst ord = 1 then Some operation_aborted
      else None)"

definition async_wait_for :: "completion \<Rightarrow> error_code option" where
  "async_wait_for c = intermediate_handler (completion_order c) (err c) (err2 c)"

section \<open>The coroutine of \<^verbatim>\<open>async_get_connection\<close>\<close>

text \<open>
  Modelled from the spec: \<^verbatim>\<open>connection_pool::find_connection\<close> is declared in
  \<^verbatim>\<open>boost/mysql/connection_pool.hpp\<close>, which is not among the sources. The specification
  has it scan the entries in order and select the first one with \<^verbatim>\<open>locked = false\<close> and
  a state among \<^verbatim>\<open>NotConnected\<close>, \<^verbatim>\<open>Iddle\<close> and \<^verbatim>\<open>PendingReset\<close>. An entry that it may
  select:
\<close>

definition eligible :: "pooled_connection \<Rightarrow> bool" where
  "eligible c =
     (\<not> locked c \<and> (state c = not_connected \<or> state c = iddle \<or> state c = pending_reset))"

text \<open>Modelled from the spec: the scan of \<^verbatim>\<open>find_connection\<close> over the entries, first
  fit, counting positions from \<open>i\<close>.\<close>

fun first_eligible :: "nat \<Rightarrow> pooled_connection list \<Rightarrow> nat option" where
  "first_eligible i [] = None"
| "first_eligible i (c # cs) = (if eligible c then Some i else first_eligible (Suc i) cs)"

text \<open>Modelled from the spec: \<^verbatim>\<open>find_connection\<close> itself, the position of the first
  eligible entry of the pool, or the null pointer when there is none.\<close>

definition find_connection :: "connection_pool \<Rightarrow> nat option" where
  "find_connection p = first_eligible 0 (conns p)"

text \<open>The frame of the coroutine: the pool and the diagnostics object it refers to, and
  its member \<^verbatim>\<open>conn_\<close>.\<close>

record get_connection_op =
  gc_pool :: connection_pool
  gc_diag :: diagnostics
  gc_conn :: "nat option"

text \<open>A completed run has called the handler with an error code and a pointer.\<close>

datatype get_connection_result =
    Handler_called error_code "nat option" get_connection_op
  | Still_suspended get_connection_op
  | Setup_assertion_failed
  | Setup_undefined_behaviour

definition set_entry :: "nat \<Rightarrow> pooled_connection \<Rightarrow> connection_pool \<Rightarrow> connection_pool" where
  "set_entry i c p = p\<lparr>conns := (conns p)[i := c]\<rparr>"

definition new_get_connection_op :: "connection_pool \<Rightarrow> diagnostics \<Rightarrow> get_connection_op" where
  "new_get_connection_op p d = \<lparr>gc_pool = p, gc_diag = d, gc_conn = None\<rparr>"

text \<open>
  What follows \<^verbatim>\<open>if (conn_)\<close>: the entry is marked as locked (\<open>mark_locked\<close> is
  \<^verbatim>\<open>conn_->locked_ = true\<close>), the setup runs on it, and
  the handler is called with the outcome. The entry and the diagnostics object are shared
  with the setup operation, so what it did to them is written back.
\<close>

definition mark_locked :: "nat \<Rightarrow> connection_pool \<Rightarrow> connection_pool" where
  "mark_locked i p = set_entry i ((conns p ! i)\<lparr>locked := True\<rparr>) p"

definition setup_found ::
    "nat \<Rightarrow> completion list \<Rightarrow> get_connection_op \<Rightarrow> get_connection_result" where
  "setup_found i cs g =
     (let p1 = mark_locked i (gc_pool g) in
      case async_setup p1 (conns p1 ! i) (gc_diag g) cs of
        Completed ec s \<Rightarrow>
          (let g' = \<lparr>gc_pool = set_entry i (op_conn s) p1, gc_diag = op_diag s,
                     gc_conn = Some i\<rparr> in
           if failed ec then Handler_called ec None g'
           else Handler_called no_error (Some i) g')
      | Suspended s \<Rightarrow>
          Still_suspended
            \<lparr>gc_pool = set_entry i (op_conn s) p1, gc_diag = op_diag s, gc_conn = Some i\<rparr>
      | Assertion_failed \<Rightarrow> Setup_assertion_failed
      | Undefined_behaviour \<Rightarrow> Setup_undefined_behaviour)"

text \<open>
  The \<^verbatim>\<open>while (true)\<close> loop. Each pass first yields on the lock of the mutex; the error
  code of that completion is not read. When no entry is found the pass yields on
  \<^verbatim>\<open>async_wait_for\<close>, and the error code it resumes with is not read either; when the
  handler of the parallel group does not call the final handler, the coroutine is not
  resumed. The run is that of one operation on its own: no other task changes the pool
  while the operation is suspended. The run among other tasks is \<open>shared_loop\<close> below.
\<close>

fun get_connection_loop :: "completion list \<Rightarrow> get_connection_op \<Rightarrow> get_connection_result" where
  "get_connection_loop [] g = Still_suspended g"
| "get_connection_loop (l # cs) g =
     (case find_connection (gc_pool g) of
        Some i \<Rightarrow> setup_found i cs (g\<lparr>gc_conn := Some i\<rparr>)
      | None \<Rightarrow>
          (case cs of
             [] \<Rightarrow> Still_suspended (g\<lparr>gc_conn := None\<rparr>)
           | w # cs' \<Rightarrow>
               (case async_wait_for w of
                  None \<Rightarrow> Still_suspended (g\<lparr>gc_conn := None\<rparr>)
                | Some ec \<Rightarrow> get_connection_loop cs' (g\<lparr>gc_conn := None\<rparr>))))"

definition async_get_connection ::
    "connection_pool \<Rightarrow> diagnostics \<Rightarrow> completion list \<Rightarrow> get_connection_result" where
  "async_get_connection p d cs = get_connection_loop cs (new_get_connection_op p d)"

section \<open>The coroutine among other tasks\<close>

text \<open>
  While the coroutine is suspended, other tasks run and may change the entries of the
  pool. Here each completion that resumes the coroutine comes with what the other tasks
  did to the pool during that suspension, as a function on the pool, and the coroutine
  sees the pool as it is when it is resumed. Next to the result, the run lists the
  operations that the coroutine started, in order.

  The completion of \<^verbatim>\<open>async_lock\<close> hands the coroutine a lock guard (the parameter
  \<^verbatim>\<open>lockg\<close>), which holds the mutex when the lock completed without an error and is empty
  when it completed with one. The coroutine does not read the error code of the lock;
  \<^verbatim>\<open>Async_setup\<close> records the entry on which the setup was started and whether the mutex
  was held when \<^verbatim>\<open>locked_\<close> was set, just before \<^verbatim>\<open>lockg = boost::sam::lock_guard()\<close>
  gives the mutex back.
\<close>

datatype initiated =
    Async_lock
  | Async_wait_for
  | Async_setup nat bool

definition observe ::
    "(connection_pool \<Rightarrow> connection_pool) \<Rightarrow> get_connection_op \<Rightarrow> get_connection_op" where
  "observe others g = g\<lparr>gc_pool := others (gc_pool g)\<rparr>"

text \<open>
  The \<^verbatim>\<open>while (true)\<close> loop of \<^verbatim>\<open>get_connection_op\<close> once more, with the other tasks. The
  setup runs on the completions that are left; the entry it works on is locked, and what
  other tasks do to the rest of the pool in the meantime is left out.
\<close>

fun shared_loop ::
    "(completion \<times> (connection_pool \<Rightarrow> connection_pool)) list \<Rightarrow> get_connection_op
       \<Rightarrow> initiated list \<times> get_connection_result" where
  "shared_loop [] g = ([Async_lock], Still_suspended g)"
| "shared_loop ((l, others) # cs) g =
     (let g1 = observe others g in
      case find_connection (gc_pool g1) of
        Some i \<Rightarrow>
          ([Async_lock, Async_setup i (\<not> failed (err l))],
           setup_found i (map fst cs) (g1\<lparr>gc_conn := Some i\<rparr>))
      | None \<Rightarrow>
          (case cs of
             [] \<Rightarrow> ([Async_lock, Async_wait_for], Still_suspended (g1\<lparr>gc_conn := None\<rparr>))
           | wo # cs' \<Rightarrow>
               (case async_wait_for (fst wo) of
                  None \<Rightarrow> ([Async_lock, Async_wait_for], Still_suspended (g1\<lparr>gc_conn := None\<rparr>))
                | Some ec \<Rightarrow>
                    (case shared_loop cs' (observe (snd wo) (g1\<lparr>gc_conn := None\<rparr>)) of
                       (started, r) \<Rightarrow> (Async_lock # Async_wait_for # started, r)))))"

text \<open>A script during which no other task touches the pool.\<close>

definition undisturbed ::
    "completion list \<Rightarrow> (completion \<times> (connection_pool \<Rightarrow> connection_pool)) list" where
  "undisturbed cs = map (\<lambda>c. (c, id)) cs"

section \<open>Counting what a setup has started\<close>

text \<open>The resolves, the connects on the current session and the sleeps that an
  operation has started on its entry.\<close>

fun is_connect :: "conn_call \<Rightarrow> bool" where
  "is_connect (async_connect e h) = True"
| "is_connect async_ping = False"
| "is_connect async_close = False"

definition resolves :: "pooled_connection \<Rightarrow> nat" where
  "resolves c = length (resolver_calls (resolver c))"

definition connects :: "pooled_connection \<Rightarrow> nat" where
  "connects c = length (filter is_connect (conn_calls (conn c)))"

definition sleeps :: "pooled_connection \<Rightarrow> nat" where
  "sleeps c = waits (timer c)"

text \<open>An entry has started at most \<open>n\<close> more resolves, connects and sleeps than another.\<close>

definition within :: "pooled_connection \<Rightarrow> nat \<Rightarrow> pooled_connection \<Rightarrow> bool" where
  "within c n c' =
     (resolves c' \<le> resolves c + n \<and> connects c' \<le> connects c + n \<and> sleeps c' \<le> sleeps c + n)"

text \<open>
  A try that fails on an unconnected entry, as the completions it consumes: either the
  resolve fails (with a code that is an error) and the sleep ends in any way, or the
  resolve yields at least one endpoint, the connect fails and the sleep ends without
  error.
\<close>

datatype failed_try =
    Resolve_fails error_code completion
  | Connect_fails endpoint "endpoint list" error_code diagnostics

fun try_script :: "failed_try \<Rightarrow> completion list" where
  "try_script (Resolve_fails ec w) = [done_with ec, w]"
| "try_script (Connect_fails e es ec msg) =
     [resolved (e # es), connect_failed ec msg, done_with no_error]"

fun try_failed :: "failed_try \<Rightarrow> bool" where
  "try_failed (Resolve_fails ec w) = failed ec"
| "try_failed (Connect_fails e es ec msg) = failed ec"

fun try_connects :: "connection_pool \<Rightarrow> failed_try \<Rightarrow> conn_call list" where
  "try_connects p (Resolve_fails ec w) = []"
| "try_connects p (Connect_fails e es ec msg) = [async_connect e (hparams (how_to_connect p))]"

section \<open>Example pools and scripts\<close>

definition ex_params :: connect_params where
  "ex_params = \<lparr>hostname = ''db'', port = ''3306'', hparams = ''root''\<rparr>"

definition empty_pool :: connection_pool where
  "empty_pool = \<lparr>pool_executor = 1, ssl_ctx = 2, how_to_connect = ex_params, conns = []\<rparr>"

definition ex_entry :: "state_t \<Rightarrow> bool \<Rightarrow> pooled_connection" where
  "ex_entry st l = new_pooled_connection empty_pool st l"

text \<open>A pool of capacity one whose entry is in the given state and not locked.\<close>

definition one_entry_pool :: "state_t \<Rightarrow> connection_pool" where
  "one_entry_pool st = empty_pool\<lparr>conns := [ex_entry st False]\<rparr>"

text \<open>The mutex is locked, the host resolves and the connect succeeds.\<close>

definition happy_script :: "completion list" where
  "happy_script = [done_with no_error, resolved [''127.0.0.1:3306''], done_with no_error]"

definition happy_end :: get_connection_op where
  "happy_end =
     \<lparr>gc_pool = empty_pool\<lparr>conns :=
        [\<lparr>state = in_use, locked = False,
          conn = \<lparr>conn_executor = 1, conn_ssl_ctx = 2,
                  conn_calls = [async_connect ''127.0.0.1:3306'' ''root'']\<rparr>,
          resolver = \<lparr>resolver_executor = 1, resolver_calls = [(''db'', ''3306'')]\<rparr>,
          timer = new_steady_timer 1\<rparr>]\<rparr>,
      gc_diag = [], gc_conn = Some 0\<rparr>"

text \<open>The connect is refused and the sleep that follows is cancelled.\<close>

definition aborted_setup_script :: "completion list" where
  "aborted_setup_script =
     [resolved [''127.0.0.1:3306''], connect_failed (other_error 1) ''denied'',
      done_with operation_aborted]"

definition aborted_entry :: pooled_connection where
  "aborted_entry =
     \<lparr>state = not_connected, locked = False,
      conn = \<lparr>conn_executor = 1, conn_ssl_ctx = 2,
              conn_calls = [async_connect ''127.0.0.1:3306'' ''root'']\<rparr>,
      resolver = \<lparr>resolver_executor = 1, resolver_calls = [(''db'', ''3306'')]\<rparr>,
      timer = \<lparr>timer_executor = 1, expiry = Some 1000, waits = 1\<rparr>\<rparr>"

definition aborted_end :: get_connection_op where
  "aborted_end =
     \<lparr>gc_pool = empty_pool\<lparr>conns := [aborted_entry]\<rparr>, gc_diag = ''denied'', gc_conn = Some 0\<rparr>"

text \<open>A pool of two entries, the first borrowed and the second idle, and a script in
  which the ping of the idle entry fails and the sleep that follows is cancelled.\<close>

definition two_entry_pool :: connection_pool where
  "two_entry_pool = empty_pool\<lparr>conns := [ex_entry in_use True, ex_entry iddle False]\<rparr>"

definition stale_script :: "completion list" where
  "stale_script =
     [done_with no_error, done_with (other_error 2), done_with (other_error 3),
      done_with operation_aborted]"

definition stale_end :: get_connection_op where
  "stale_end =
     \<lparr>gc_pool = empty_pool\<lparr>conns :=
        [ex_entry in_use True,
         \<lparr>state = not_connected, locked = False,
          conn = new_tcp_ssl_connection 1 2,
          resolver = new_resolver 1,
          timer = \<lparr>timer_executor = 1, expiry = Some 1000, waits = 1\<rparr>\<rparr>]\<rparr>,
      gc_diag = [], gc_conn = Some 1\<rparr>"

text \<open>A try in which the host resolves to one endpoint and the connect is refused, and
  the operation after ten of them on the unconnected, locked example entry.\<close>

definition refused :: failed_try where
  "refused = Connect_fails ''127.0.0.1:3306'' [] (other_error 1) ''denied''"

definition exhausted_op :: setup_op where
  "exhausted_op =
     \<lparr>op_conn =
        \<lparr>state = not_connected, locked = False,
         conn = \<lparr>conn_executor = 1, conn_ssl_ctx = 2,
                 conn_calls = replicate 10 (async_connect ''127.0.0.1:3306'' ''root'')\<rparr>,
         resolver = \<lparr>resolver_executor = 1, resolver_calls = replicate 10 (''db'', ''3306'')\<rparr>,
         timer = \<lparr>timer_executor = 1, expiry = Some 1000, waits = 10\<rparr>\<rparr>,
      op_diag = ''denied'', num_tries = 10, op_g = False\<rparr>"

text \<open>An idle entry whose ping fails: the close fails as well, the sleep ends, the host
  resolves and the connect succeeds.\<close>

definition healing_script :: "completion list" where
  "healing_script =
     [done_with (other_error 2), done_with (other_error 3), done_with no_error,
      resolved [''127.0.0.1:3306''], done_with no_error]"

text \<open>An unconnected entry: the resolve fails, the sleep that follows is cancelled, then
  the host resolves and the connect succeeds.\<close>

definition cancelled_sleep_script :: "completion list" where
  "cancelled_sleep_script =
     [done_with (other_error 4), done_with operation_aborted,
      resolved [''127.0.0.1:3306''], done_with no_error]"

definition cancelled_sleep_end :: setup_op where
  "cancelled_sleep_end =
     \<lparr>op_conn =
        \<lparr>state = in_use, locked = False,
         conn = \<lparr>conn_executor = 1, conn_ssl_ctx = 2,
                 conn_calls = [async_connect ''127.0.0.1:3306'' ''root'']\<rparr>,
         resolver = \<lparr>resolver_executor = 1,
                     resolver_calls = [(''db'', ''3306''), (''db'', ''3306'')]\<rparr>,
         timer = \<lparr>timer_executor = 1, expiry = Some 1000, waits = 1\<rparr>\<rparr>,
      op_diag = [], num_tries = 1, op_g = False\<rparr>"

text \<open>
  A pool of one borrowed entry. The operation locks the mutex, finds nothing and waits;
  the wait times out, and meanwhile another task has put the entry into state
  \<^verbatim>\<open>pending_reset\<close>, unlocked; the operation locks the mutex again.
\<close>

definition freed_script :: "(completion \<times> (connection_pool \<Rightarrow> connection_pool)) list" where
  "freed_script =
     [(done_with no_error, id),
      (group_done (1, 0) operation_aborted no_error, set_entry 0 (ex_entry pending_reset False)),
      (done_with no_error, id)]"

definition freed_end :: get_connection_op where
  "freed_end =
     \<lparr>gc_pool = empty_pool\<lparr>conns := [ex_entry in_use False]\<rparr>, gc_diag = [], gc_conn = Some 0\<rparr>"

text \<open>The run of ten refused connects in which the sleep after the tenth is cancelled.\<close>

definition tenth_cancelled_script :: "completion list" where
  "tenth_cancelled_script = concat (map try_script (replicate 9 refused)) @ aborted_setup_script"

section \<open>Properties of the setup coroutine\<close>

lemmas start_defs = start_resolve_def start_conn_call_def start_sleep_def recreate_conn_def
lemmas try_defs = attempt_def not_connected_try_def iddle_try_def
lemmas complete_defs = complete_def complete_ok_def g_reset_def

text \<open>
  An invariant rule for the retry loop: a property of the operation that holds at the
  start and survives every pass that ends in \<^verbatim>\<open>continue\<close> can be used where the loop is
  left, by a pass or by running out of tries.
\<close>

lemma setup_loop_rule:
  assumes init: "I s"
    and step: "\<And>s cs s1 cs1. I s \<Longrightarrow> num_tries s < max_num_tries \<Longrightarrow>
                 attempt p cs s = Continue s1 cs1 \<Longrightarrow> I (s1\<lparr>num_tries := Suc (num_tries s1)\<rparr>)"
    and leave: "\<And>s cs r. I s \<Longrightarrow> num_tries s < max_num_tries \<Longrightarrow>
                 attempt p cs s = Break r \<Longrightarrow> Q r"
    and exhaust: "\<And>s. I s \<Longrightarrow> \<not> num_tries s < max_num_tries \<Longrightarrow>
                 Q (complete pool_retries_exhausted s)"
  shows "Q (setup_loop p cs s)"
  using assms
proof (induction p cs s rule: setup_loop.induct)
  case (1 p cs s)
  note inv = "1.prems"(1) and step = "1.prems"(2) and leave = "1.prems"(3)
    and exhaust = "1.prems"(4)
  show ?case
  proof (cases "num_tries s < max_num_tries")
    case False
    with exhaust [OF inv] show ?thesis
      by (simp add: setup_loop.simps [of p cs s])
  next
    case True
    show ?thesis
    proof (cases "attempt p cs s")
      case (Continue s1 cs1)
      have "Q (setup_loop p cs1 (s1\<lparr>num_tries := Suc (num_tries s1)\<rparr>))"
        using step [OF inv True Continue] step leave exhaust
        by (rule "1.IH" [OF True Continue])
      with True Continue show ?thesis
        by (simp add: setup_loop.simps [of p cs s])
    next
      case (Break r)
      from leave [OF inv True Break] True Break show ?thesis
        by (simp add: setup_loop.simps [of p cs s])
    qed
  qed
qed

lemma attempt_continue_g:
  "attempt p cs s = Continue s' cs' \<Longrightarrow> op_g s' = op_g s \<and> num_tries s' = num_tries s"
  by (auto simp: try_defs start_defs Let_def split: if_splits list.splits)

lemma attempt_completed_unlocked:
  "attempt p cs s = Break (Completed ec s') \<Longrightarrow> op_g s \<Longrightarrow> \<not> locked (op_conn s') \<and> \<not> op_g s'"
  by (auto simp: try_defs start_defs Let_def complete_defs split: if_splits list.splits)

lemma attempt_completed_ok:
  "attempt p cs s = Break (Completed ec s') \<Longrightarrow> \<not> failed ec \<Longrightarrow>
     state (op_conn s') = in_use \<and> op_diag s' = []"
  by (auto simp: try_defs start_defs Let_def complete_defs split: if_splits list.splits)

lemma setup_loop_unlocked:
  assumes "op_g s" and "setup_loop p cs s = Completed ec s'"
  shows "\<not> locked (op_conn s') \<and> \<not> op_g s'"
proof -
  have "(\<lambda>r. \<forall>ec s'. r = Completed ec s' \<longrightarrow> \<not> locked (op_conn s') \<and> \<not> op_g s') (setup_loop p cs s)"
  proof (rule setup_loop_rule [where I = op_g])
    show "op_g s" by fact
  next
    fix s cs s1 cs1
    assume "op_g s" "attempt p cs s = Continue s1 cs1"
    then show "op_g (s1\<lparr>num_tries := Suc (num_tries s1)\<rparr>)"
      by (simp add: attempt_continue_g)
  next
    fix s cs r
    assume "op_g s" "attempt p cs s = Break r"
    then show "\<forall>ec s'. r = Completed ec s' \<longrightarrow> \<not> locked (op_conn s') \<and> \<not> op_g s'"
      using attempt_completed_unlocked by blast
  next
    fix s :: setup_op
    assume "op_g s"
    then show "\<forall>ec s'. complete pool_retries_exhausted s = Completed ec s' \<longrightarrow>
                 \<not> locked (op_conn s') \<and> \<not> op_g s'"
      by (auto simp: complete_defs)
  qed
  with assms(2) show ?thesis by simp
qed

lemma setup_loop_ok:
  assumes "setup_loop p cs s = Completed ec s'" and "\<not> failed ec"
  shows "state (op_conn s') = in_use \<and> op_diag s' = []"
proof -
  have "(\<lambda>r. \<forall>ec s'. r = Completed ec s' \<longrightarrow> \<not> failed ec \<longrightarrow>
           state (op_conn s') = in_use \<and> op_diag s' = []) (setup_loop p cs s)"
  proof (rule setup_loop_rule [where I = "\<lambda>s. True"])
    fix s cs r
    assume "attempt p cs s = Break r"
    then show "\<forall>ec s'. r = Completed ec s' \<longrightarrow> \<not> failed ec \<longrightarrow>
           state (op_conn s') = in_use \<and> op_diag s' = []"
      using attempt_completed_ok by blast
  next
    fix s :: setup_op
    show "\<forall>ec s'. complete pool_retries_exhausted s = Completed ec s' \<longrightarrow> \<not> failed ec \<longrightarrow>
           state (op_conn s') = in_use \<and> op_diag s' = []"
      by (auto simp: complete_defs failed_def)
  qed simp_all
  with assms show ?thesis by simp
qed

lemma first_eligible_Some:
  "first_eligible k cs = Some i \<Longrightarrow> k \<le> i \<and> i - k < length cs \<and> eligible (cs ! (i - k))"
proof (induction cs arbitrary: k)
  case Nil
  then show ?case by simp
next
  case (Cons c cs)
  show ?case
  proof (cases "eligible c")
    case True
    with Cons.prems show ?thesis by simp
  next
    case False
    with Cons.prems have "first_eligible (Suc k) cs = Some i" by simp
    from Cons.IH [OF this] show ?thesis
      by (auto simp: nth_Cons' Suc_diff_Suc)
  qed
qed

lemma find_connection_Some:
  "find_connection p = Some i \<Longrightarrow> i < length (conns p) \<and> eligible (conns p ! i)"
  using first_eligible_Some [of 0 "conns p" i] by (simp add: find_connection_def)




lemma async_setup_completed:
  assumes "async_setup p c d cs = Completed ec s"
  shows "\<not> locked (op_conn s)" and "\<not> op_g s"
    and "\<not> failed ec \<Longrightarrow> state (op_conn s) = in_use \<and> op_diag s = []"
proof -
  from assms have run: "setup_loop p cs (new_setup_op c d) = Completed ec s"
    by (simp add: async_setup_def Let_def split: if_splits)
  have "op_g (new_setup_op c d)" by (simp add: new_setup_op_def)
  from setup_loop_unlocked [OF this run]
  show "\<not> locked (op_conn s)" and "\<not> op_g s" by simp_all
  show "\<not> failed ec \<Longrightarrow> state (op_conn s) = in_use \<and> op_diag s = []"
    using setup_loop_ok [OF run] .
qed

section \<open>Properties of \<^verbatim>\<open>async_get_connection\<close>\<close>

lemma nth_mark_locked:
  "i < length (conns p) \<Longrightarrow> conns (mark_locked i p) ! i = (conns p ! i)\<lparr>locked := True\<rparr>"
  by (simp add: mark_locked_def set_entry_def)

lemma setup_found_called:
  assumes "setup_found i cs g = Handler_called ec ptr g'"
  shows "\<exists>s. async_setup (mark_locked i (gc_pool g)) (conns (mark_locked i (gc_pool g)) ! i)
               (gc_diag g) cs = Completed ec s
           \<and> g' = \<lparr>gc_pool = set_entry i (op_conn s) (mark_locked i (gc_pool g)),
                   gc_diag = op_diag s, gc_conn = Some i\<rparr>
           \<and> ptr = (if failed ec then None else Some i)"
  using assms
  by (auto simp: setup_found_def Let_def failed_def split: outcome.splits if_splits)

lemma get_connection_loop_called:
  "get_connection_loop cs g = Handler_called ec ptr g' \<Longrightarrow>
     \<exists>i cs' s. find_connection (gc_pool g) = Some i
       \<and> async_setup (mark_locked i (gc_pool g)) (conns (mark_locked i (gc_pool g)) ! i)
            (gc_diag g) cs' = Completed ec s
       \<and> g' = \<lparr>gc_pool = set_entry i (op_conn s) (mark_locked i (gc_pool g)),
               gc_diag = op_diag s, gc_conn = Some i\<rparr>
       \<and> ptr = (if failed ec then None else Some i)"
proof (induction cs g rule: get_connection_loop.induct)
  case (1 g)
  then show ?case by simp
next
  case (2 l cs g)
  show ?case
  proof (cases "find_connection (gc_pool g)")
    case (Some i)
    with "2.prems" have "setup_found i cs (g\<lparr>gc_conn := Some i\<rparr>) = Handler_called ec ptr g'"
      by simp
    from setup_found_called [OF this] Some show ?thesis by fastforce
  next
    case None
    with "2.prems" obtain w cs' e where cs: "cs = w # cs'" and w: "async_wait_for w = Some e"
      and run: "get_connection_loop cs' (g\<lparr>gc_conn := None\<rparr>) = Handler_called ec ptr g'"
      by (auto split: list.splits option.splits)
    from "2.IH" [OF None cs w run] show ?thesis by simp
  qed
qed

lemma async_get_connection_called:
  assumes "async_get_connection p d cs = Handler_called ec ptr g"
  shows "\<exists>i cs' s. find_connection p = Some i
       \<and> async_setup (mark_locked i p) ((conns p ! i)\<lparr>locked := True\<rparr>) d cs' = Completed ec s
       \<and> gc_pool g = set_entry i (op_conn s) (mark_locked i p)
       \<and> gc_diag g = op_diag s \<and> gc_conn g = Some i
       \<and> ptr = (if failed ec then None else Some i)"
proof -
  from get_connection_loop_called [OF assms [unfolded async_get_connection_def]]
  obtain i cs' s where f: "find_connection p = Some i"
    and run: "async_setup (mark_locked i p) (conns (mark_locked i p) ! i) d cs' = Completed ec s"
    and g: "g = \<lparr>gc_pool = set_entry i (op_conn s) (mark_locked i p),
               gc_diag = op_diag s, gc_conn = Some i\<rparr>"
    and ptr: "ptr = (if failed ec then None else Some i)"
    by (auto simp: new_get_connection_op_def)
  from f have "i < length (conns p)" by (simp add: find_connection_Some)
  with run have "async_setup (mark_locked i p) ((conns p ! i)\<lparr>locked := True\<rparr>) d cs' = Completed ec s"
    by (simp add: nth_mark_locked)
  with f g ptr show ?thesis by auto
qed

lemma entry_after_setup:
  "i < length (conns p) \<Longrightarrow> conns (set_entry i c (mark_locked i p)) ! i = c"
  by (simp add: set_entry_def mark_locked_def)

lemma length_after_setup:
  "length (conns (set_entry i c (mark_locked i p))) = length (conns p)"
  by (simp add: set_entry_def mark_locked_def)

lemma locked_after_setup:
  assumes "i < length (conns p)" and "locked c = locked (conns p ! i)"
  shows "map locked (conns (set_entry i c (mark_locked i p))) = map locked (conns p)"
  using assms
  by (simp add: set_entry_def mark_locked_def map_update list_update_same_conv)

section \<open>Concrete runs\<close>

lemma happy_run:
  "async_get_connection (one_entry_pool not_connected) ''stale'' happy_script
     = Handler_called no_error (Some 0) happy_end"
  by code_simp

lemma aborted_setup_run:
  "async_setup (mark_locked 0 (one_entry_pool not_connected))
      ((conns (one_entry_pool not_connected) ! 0)\<lparr>locked := True\<rparr>) [] aborted_setup_script
     = Completed operation_aborted
         \<lparr>op_conn = aborted_entry, op_diag = ''denied'', num_tries = 0, op_g = False\<rparr>"
  by code_simp

lemma aborted_run:
  "async_get_connection (one_entry_pool not_connected) [] (done_with no_error # aborted_setup_script)
     = Handler_called operation_aborted None aborted_end"
  by code_simp

lemma stale_run:
  "async_get_connection two_entry_pool [] stale_script
     = Handler_called operation_aborted None stale_end"
  by code_simp

section \<open>The lock flag when \<^verbatim>\<open>async_get_connection\<close> completes\<close>

text \<open>
  Claim C1 has a successful \<^verbatim>\<open>get_connection\<close> end with the returned entry in state
  \<^verbatim>\<open>in_use\<close> and \<^verbatim>\<open>locked_ = true\<close>. On a pool of one unconnected entry, with a resolve
  and a connect that succeed, the handler is called with success and entry 0, which is in
  state \<^verbatim>\<open>in_use\<close> with \<^verbatim>\<open>locked_ = false\<close>: \<^verbatim>\<open>complete_ok\<close> ends in \<^verbatim>\<open>complete\<close>, which
  resets the guard.
\<close>

theorem success_clears_locked:
  "async_get_connection (one_entry_pool not_connected) ''stale'' happy_script
     = Handler_called no_error (Some 0) happy_end
   \<and> state (conns (gc_pool happy_end) ! 0) = in_use
   \<and> locked (conns (gc_pool happy_end) ! 0) = False"
  using happy_run by (simp add: happy_end_def)

text \<open>
  Claim C1, amended: whenever \<^verbatim>\<open>async_get_connection\<close> completes with success, the entry
  handed to the caller is in state \<^verbatim>\<open>in_use\<close>, the caller's diagnostics object has been
  cleared, and the entry's \<^verbatim>\<open>locked_\<close> flag is false.
\<close>

theorem get_connection_success:
  assumes "async_get_connection p d cs = Handler_called ec ptr g" and "\<not> failed ec"
  shows "\<exists>i. ptr = Some i \<and> i < length (conns (gc_pool g))
           \<and> state (conns (gc_pool g) ! i) = in_use
           \<and> \<not> locked (conns (gc_pool g) ! i)
           \<and> gc_diag g = []"
proof -
  from async_get_connection_called [OF assms(1)] assms(2)
  obtain i cs' s where f: "find_connection p = Some i"
    and run: "async_setup (mark_locked i p) ((conns p ! i)\<lparr>locked := True\<rparr>) d cs' = Completed ec s"
    and g: "gc_pool g = set_entry i (op_conn s) (mark_locked i p)" "gc_diag g = op_diag s"
    and ptr: "ptr = Some i"
    by auto
  from f have i: "i < length (conns p)" by (simp add: find_connection_Some)
  from async_setup_completed [OF run] assms(2)
  have "\<not> locked (op_conn s)" "state (op_conn s) = in_use" "op_diag s = []" by simp_all
  with g i ptr show ?thesis
    by (simp add: entry_after_setup length_after_setup)
qed

theorem get_connection_success_witness:
  "\<not> failed no_error
   \<and> (\<exists>i. Some (0::nat) = Some i \<and> i < length (conns (gc_pool happy_end))
           \<and> state (conns (gc_pool happy_end) ! i) = in_use
           \<and> \<not> locked (conns (gc_pool happy_end) ! i)
           \<and> gc_diag happy_end = [])"
proof -
  have ok: "\<not> failed no_error" by (simp add: failed_def)
  from get_connection_success [OF happy_run ok] ok show ?thesis by simp
qed

text \<open>
  Claim C2 has the entry stay locked when the setup fails inside \<^verbatim>\<open>get_connection\<close>. On
  a pool of one unconnected entry, with a connect that is refused and a sleep that is
  cancelled, the handler is called with \<^verbatim>\<open>operation_aborted\<close> and a null pointer, and
  entry 0 has \<^verbatim>\<open>locked_ = false\<close>.
\<close>

theorem setup_failure_clears_locked:
  "async_get_connection (one_entry_pool not_connected) [] (done_with no_error # aborted_setup_script)
     = Handler_called operation_aborted None aborted_end
   \<and> locked (conns (gc_pool aborted_end) ! 0) = False"
  using aborted_run by (simp add: aborted_end_def aborted_entry_def)

text \<open>
  Claim C2, amended: when the setup of the entry that \<^verbatim>\<open>find_connection\<close> selected fails,
  \<^verbatim>\<open>async_get_connection\<close> calls the handler with the error of the setup and a null
  pointer, and by then the guard of the setup operation is empty and the entry's
  \<^verbatim>\<open>locked_\<close> flag is false.
\<close>

theorem setup_failure_returned:
  assumes "find_connection p = Some i"
    and "async_setup (mark_locked i p) ((conns p ! i)\<lparr>locked := True\<rparr>) d cs = Completed ec s"
    and "failed ec"
  shows "async_get_connection p d (l # cs)
           = Handler_called ec None
               \<lparr>gc_pool = set_entry i (op_conn s) (mark_locked i p), gc_diag = op_diag s,
                gc_conn = Some i\<rparr>
         \<and> conns (set_entry i (op_conn s) (mark_locked i p)) ! i = op_conn s
         \<and> \<not> locked (op_conn s) \<and> \<not> op_g s"
proof -
  from assms(1) have i: "i < length (conns p)" by (simp add: find_connection_Some)
  with assms have "async_get_connection p d (l # cs)
           = Handler_called ec None
               \<lparr>gc_pool = set_entry i (op_conn s) (mark_locked i p), gc_diag = op_diag s,
                gc_conn = Some i\<rparr>"
    by (simp add: async_get_connection_def new_get_connection_op_def setup_found_def
          nth_mark_locked)
  with i async_setup_completed(1,2) [OF assms(2)] show ?thesis
    by (simp add: entry_after_setup)
qed

theorem setup_failure_returned_witness:
  "find_connection (one_entry_pool not_connected) = Some 0
   \<and> failed operation_aborted
   \<and> async_get_connection (one_entry_pool not_connected) [] (done_with no_error # aborted_setup_script)
       = Handler_called operation_aborted None
           \<lparr>gc_pool = set_entry 0 aborted_entry (mark_locked 0 (one_entry_pool not_connected)),
            gc_diag = ''denied'', gc_conn = Some 0\<rparr>
   \<and> \<not> locked aborted_entry"
proof -
  have f: "find_connection (one_entry_pool not_connected) = Some 0" by code_simp
  have e: "failed operation_aborted" by (simp add: failed_def)
  from setup_failure_returned [OF f aborted_setup_run e, of "done_with no_error"] f e
  show ?thesis by simp
qed

text \<open>
  Claim C3: whenever \<^verbatim>\<open>async_get_connection\<close> completes with an error, every entry of the
  pool has the \<^verbatim>\<open>locked_\<close> flag it had before the call, and the flag of the entry that the
  call had selected and locked is false again: every failing completion of the setup goes
  through \<^verbatim>\<open>complete\<close>, which resets the guard.
\<close>

theorem failure_leaves_no_lock:
  assumes "async_get_connection p d cs = Handler_called ec ptr g" and "failed ec"
  shows "map locked (conns (gc_pool g)) = map locked (conns p)
         \<and> (\<exists>i. find_connection p = Some i \<and> i < length (conns (gc_pool g))
               \<and> \<not> locked (conns (gc_pool g) ! i))"
proof -
  from async_get_connection_called [OF assms(1)]
  obtain i cs' s where f: "find_connection p = Some i"
    and run: "async_setup (mark_locked i p) ((conns p ! i)\<lparr>locked := True\<rparr>) d cs' = Completed ec s"
    and g: "gc_pool g = set_entry i (op_conn s) (mark_locked i p)"
    by auto
  from f have i: "i < length (conns p)" and "\<not> locked (conns p ! i)"
    by (simp_all add: find_connection_Some [unfolded eligible_def])
  moreover from async_setup_completed(1) [OF run] have "\<not> locked (op_conn s)" .
  ultimately have "map locked (conns (gc_pool g)) = map locked (conns p)"
    and "\<not> locked (conns (gc_pool g) ! i)"
    using g by (simp_all add: locked_after_setup entry_after_setup)
  with f i g show ?thesis by (simp add: length_after_setup)
qed

theorem failure_leaves_no_lock_witness:
  "failed operation_aborted
   \<and> map locked (conns (gc_pool stale_end)) = map locked (conns two_entry_pool)
   \<and> (\<exists>i. find_connection two_entry_pool = Some i \<and> i < length (conns (gc_pool stale_end))
         \<and> \<not> locked (conns (gc_pool stale_end) ! i))"
proof -
  have e: "failed operation_aborted" by (simp add: failed_def)
  from failure_leaves_no_lock [OF stale_run e] e show ?thesis by simp
qed

section \<open>The setup preconditions\<close>




text \<open>Without other tasks the run is the one of \<open>get_connection_loop\<close>.\<close>

lemma observe_id: "observe id g = g"
  by (simp add: observe_def)

lemma shared_loop_undisturbed:
  "snd (shared_loop (undisturbed cs) g) = get_connection_loop cs g"
proof (induction cs g rule: get_connection_loop.induct)
  case (1 g)
  show ?case by (simp add: undisturbed_def)
next
  case (2 l cs g)
  show ?case
  proof (cases "find_connection (gc_pool g)")
    case (Some i)
    then show ?thesis
      by (simp add: undisturbed_def observe_id comp_def)
  next
    case None
    show ?thesis
    proof (cases cs)
      case Nil
      with None show ?thesis by (simp add: undisturbed_def observe_id)
    next
      case (Cons w cs')
      show ?thesis
      proof (cases "async_wait_for w")
        case Nn: None
        with None Cons show ?thesis by (simp add: undisturbed_def observe_id)
      next
        case (Some ec)
        from "2.IH" [OF None Cons Some]
        have "snd (shared_loop (undisturbed cs') (g\<lparr>gc_conn := None\<rparr>))
                = get_connection_loop cs' (g\<lparr>gc_conn := None\<rparr>)" .
        with None Cons Some show ?thesis
          by (auto simp: undisturbed_def observe_id split: prod.splits)
      qed
    qed
  qed
qed





section \<open>What the completion handler receives\<close>

text \<open>
  Claim C10: when \<^verbatim>\<open>async_get_connection\<close> completes with an error the pointer passed to
  the handler is null; when it completes with success the pointer is not null, it is the
  entry that \<^verbatim>\<open>find_connection\<close> selected, and it points into the pool.
\<close>

theorem handler_pointer:
  assumes "async_get_connection p d cs = Handler_called ec ptr g"
  shows "if failed ec then ptr = None
         else find_connection p = ptr \<and> gc_conn g = ptr
              \<and> (case ptr of None \<Rightarrow> False | Some i \<Rightarrow> i < length (conns (gc_pool g)))"
proof -
  from async_get_connection_called [OF assms]
  obtain i cs' s where f: "find_connection p = Some i"
    and run: "async_setup (mark_locked i p) ((conns p ! i)\<lparr>locked := True\<rparr>) d cs' = Completed ec s"
    and g: "gc_pool g = set_entry i (op_conn s) (mark_locked i p)" "gc_conn g = Some i"
    and ptr: "ptr = (if failed ec then None else Some i)"
    by (elim exE conjE) (rule that)
  from f have "i < length (conns p)" by (simp add: find_connection_Some)
  with f g ptr show ?thesis by (simp add: length_after_setup)
qed

theorem handler_pointer_witness:
  "(if failed operation_aborted then (None :: nat option) = None
    else find_connection two_entry_pool = None \<and> gc_conn stale_end = None
         \<and> (case None of None \<Rightarrow> False | Some i \<Rightarrow> i < length (conns (gc_pool stale_end))))
   \<and> (if failed no_error then Some 0 = None
      else find_connection (one_entry_pool not_connected) = Some 0 \<and> gc_conn happy_end = Some 0
           \<and> (case Some 0 of None \<Rightarrow> False | Some i \<Rightarrow> i < length (conns (gc_pool happy_end))))"
  using handler_pointer [OF stale_run] handler_pointer [OF happy_run]
  by (simp add: failed_def)

section \<open>The bounded wait\<close>

text \<open>
  Claim C6: the handler of the parallel group reports the result of the wait on the
  condition variable when that wait is first in the completion order (success when the
  notification succeeded), and \<^verbatim>\<open>operation_aborted\<close> when the timer is first; the timer
  is set to expire after the fixed \<^verbatim>\<open>wait_timeout\<close> of 10 seconds.
\<close>

theorem wait_reports_first_completion:
  "intermediate_handler (0, k) ec1 ec2 = Some ec1
   \<and> intermediate_handler (1, k) ec1 ec2 = Some operation_aborted
   \<and> async_wait_for (group_done (0, 1) no_error ec2) = Some no_error
   \<and> async_wait_for (group_done (1, 0) ec1 ec2) = Some operation_aborted
   \<and> wait_timeout = 10
   \<and> expiry (initiate_wait_timer ex) = Some (10 * 1000)
   \<and> waits (initiate_wait_timer ex) = 1"
  by (simp add: intermediate_handler_def async_wait_for_def group_done_def done_with_def
        wait_timeout_def initiate_wait_timer_def timer_async_wait_def expires_after_def
        new_steady_timer_def)

lemma freed_run:
  "shared_loop freed_script (new_get_connection_op (one_entry_pool in_use) ''stale'')
     = ([Async_lock, Async_wait_for, Async_lock, Async_setup 0 True],
        Handler_called no_error (Some 0) freed_end)"
  by code_simp

text \<open>
  Claim C7: when the scan finds no entry, the coroutine does not read what the bounded
  wait completed with. Whether the condition variable or the timer came first, the
  handler is not called; the coroutine starts the lock of the mutex again and the run
  continues as a fresh pass on the pool as the other tasks have left it. When the lock
  completes, the entries are scanned again: an entry that has become eligible in the
  meantime is selected and set up.
\<close>

theorem wait_result_ignored:
  assumes "find_connection (others p) = None"
    and "fst (completion_order w) = 0 \<or> fst (completion_order w) = 1"
  shows "shared_loop ((l, others) # (w, others') # cs) (new_get_connection_op p d)
           = (Async_lock # Async_wait_for
                # fst (shared_loop cs (new_get_connection_op (others' (others p)) d)),
              snd (shared_loop cs (new_get_connection_op (others' (others p)) d)))
         \<and> shared_loop [(l, others), (w, others')] (new_get_connection_op p d)
           = ([Async_lock, Async_wait_for, Async_lock],
              Still_suspended (new_get_connection_op (others' (others p)) d))
         \<and> (find_connection (others'' (others' (others p))) = Some i \<longrightarrow>
              shared_loop ((l, others) # (w, others') # (l', others'') # cs)
                  (new_get_connection_op p d)
                = ([Async_lock, Async_wait_for, Async_lock, Async_setup i (\<not> failed (err l'))],
                   setup_found i (map fst cs)
                     \<lparr>gc_pool = others'' (others' (others p)), gc_diag = d, gc_conn = Some i\<rparr>))"
proof -
  from assms(2) obtain ec where w: "async_wait_for w = Some ec"
    by (auto simp: async_wait_for_def intermediate_handler_def)
  have again: "shared_loop ((l, others) # (w, others') # cs') (new_get_connection_op p d)
           = (Async_lock # Async_wait_for
                # fst (shared_loop cs' (new_get_connection_op (others' (others p)) d)),
              snd (shared_loop cs' (new_get_connection_op (others' (others p)) d)))" for cs'
    using assms(1) w
    by (simp add: new_get_connection_op_def observe_def split: prod.splits)
  have next_pass: "shared_loop ((l', others'') # cs) (new_get_connection_op (others' (others p)) d)
           = ([Async_lock, Async_setup i (\<not> failed (err l'))],
              setup_found i (map fst cs)
                \<lparr>gc_pool = others'' (others' (others p)), gc_diag = d, gc_conn = Some i\<rparr>)"
    if "find_connection (others'' (others' (others p))) = Some i"
    using that by (simp add: new_get_connection_op_def observe_def)
  from again [of cs] again [of "[]"] again [of "(l', others'') # cs"] next_pass
  show ?thesis by simp
qed

theorem wait_result_ignored_witness:
  "find_connection (id (one_entry_pool in_use)) = None
   \<and> (fst (completion_order (group_done (1, 0) operation_aborted no_error)) = 0
      \<or> fst (completion_order (group_done (1, 0) operation_aborted no_error)) = 1)
   \<and> async_wait_for (group_done (1, 0) operation_aborted no_error) = Some operation_aborted
   \<and> find_connection
        (id (set_entry 0 (ex_entry pending_reset False) (id (one_entry_pool in_use)))) = Some 0
   \<and> shared_loop freed_script (new_get_connection_op (one_entry_pool in_use) ''stale'')
       = ([Async_lock, Async_wait_for, Async_lock, Async_setup 0 True],
          Handler_called no_error (Some 0) freed_end)"
proof -
  have f: "find_connection (id (one_entry_pool in_use)) = None" by code_simp
  have o: "fst (completion_order (group_done (1, 0) operation_aborted no_error)) = 0
           \<or> fst (completion_order (group_done (1, 0) operation_aborted no_error)) = 1"
    by (simp add: group_done_def done_with_def)
  have a: "async_wait_for (group_done (1, 0) operation_aborted no_error) = Some operation_aborted"
    by code_simp
  have f': "find_connection
        (id (set_entry 0 (ex_entry pending_reset False) (id (one_entry_pool in_use)))) = Some 0"
    by code_simp
  from wait_result_ignored [where others = id and p = "one_entry_pool in_use"
      and w = "group_done (1, 0) operation_aborted no_error" and l = "done_with no_error"
      and others' = "set_entry 0 (ex_entry pending_reset False)" and others'' = id
      and l' = "done_with no_error" and cs = "[]" and d = "''stale''" and i = 0] f o f'
  have "shared_loop freed_script (new_get_connection_op (one_entry_pool in_use) ''stale'')
       = ([Async_lock, Async_wait_for, Async_lock, Async_setup 0 (\<not> failed (err (done_with no_error)))],
          setup_found 0 (map fst [])
            \<lparr>gc_pool = id (set_entry 0 (ex_entry pending_reset False) (id (one_entry_pool in_use))),
             gc_diag = ''stale'', gc_conn = Some 0\<rparr>)"
    by (simp add: freed_script_def)
  with f o a f' freed_run show ?thesis by simp
qed

section \<open>Bounded retries\<close>

lemmas count_defs = resolves_def connects_def sleeps_def

lemma attempt_continue_counts:
  assumes "attempt p cs s = Continue s1 cs1"
  shows "resolves (op_conn s1) \<le> Suc (resolves (op_conn s))"
    and "connects (op_conn s1) \<le> Suc (connects (op_conn s))"
    and "sleeps (op_conn s1) \<le> Suc (sleeps (op_conn s))"
  using assms
  by (auto simp: try_defs start_defs Let_def count_defs timer_async_wait_def expires_after_def
        new_tcp_ssl_connection_def
      split: if_splits list.splits)

lemma attempt_break_counts:
  assumes "attempt p cs s = Break r" and "r = Completed ec s1 \<or> r = Suspended s1"
  shows "resolves (op_conn s1) \<le> Suc (resolves (op_conn s))"
    and "connects (op_conn s1) \<le> Suc (connects (op_conn s))"
    and "sleeps (op_conn s1) \<le> Suc (sleeps (op_conn s))"
    and "num_tries s1 = num_tries s"
  using assms
  by (auto simp: try_defs start_defs complete_defs Let_def count_defs timer_async_wait_def
        expires_after_def new_tcp_ssl_connection_def
      split: if_splits list.splits)


lemma setup_loop_bounded:
  assumes r: "setup_loop p cs (new_setup_op c d) = r"
    and s: "r = Completed ec s \<or> r = Suspended s"
  shows "num_tries s \<le> max_num_tries"
    and "resolves (op_conn s) \<le> resolves c + max_num_tries"
    and "connects (op_conn s) \<le> connects c + max_num_tries"
    and "sleeps (op_conn s) \<le> sleeps c + max_num_tries"
    and "r = Completed ec s \<Longrightarrow> num_tries s = max_num_tries \<Longrightarrow> ec = pool_retries_exhausted"
proof -
  let ?I = "\<lambda>s. num_tries s \<le> max_num_tries \<and> within c (num_tries s) (op_conn s)"
  let ?Q = "\<lambda>r. \<forall>ec s. r = Completed ec s \<or> r = Suspended s \<longrightarrow>
              num_tries s \<le> max_num_tries \<and> within c max_num_tries (op_conn s)
              \<and> (r = Completed ec s \<and> num_tries s = max_num_tries \<longrightarrow> ec = pool_retries_exhausted)"
  have "?Q (setup_loop p cs (new_setup_op c d))"
  proof (rule setup_loop_rule [where I = ?I])
    show "?I (new_setup_op c d)"
      by (simp add: new_setup_op_def within_def)
  next
    fix s cs s1 cs1
    assume inv: "?I s" and lt: "num_tries s < max_num_tries"
      and a: "attempt p cs s = Continue s1 cs1"
    from a have "num_tries s1 = num_tries s" by (simp add: attempt_continue_g)
    with inv lt attempt_continue_counts [OF a]
    show "?I (s1\<lparr>num_tries := Suc (num_tries s1)\<rparr>)"
      by (simp add: within_def)
  next
    fix s cs r
    assume inv: "?I s" and lt: "num_tries s < max_num_tries" and a: "attempt p cs s = Break r"
    show "?Q r"
    proof (intro allI impI)
      fix ec s1
      assume r: "r = Completed ec s1 \<or> r = Suspended s1"
      from attempt_break_counts [OF a r] inv lt
      show "num_tries s1 \<le> max_num_tries \<and> within c max_num_tries (op_conn s1)
              \<and> (r = Completed ec s1 \<and> num_tries s1 = max_num_tries \<longrightarrow> ec = pool_retries_exhausted)"
        by (simp add: within_def)
    qed
  next
    fix s :: setup_op
    assume "?I s" and "\<not> num_tries s < max_num_tries"
    then show "?Q (complete pool_retries_exhausted s)"
      by (auto simp: complete_defs within_def count_defs)
  qed
  with r s show "num_tries s \<le> max_num_tries"
    and "resolves (op_conn s) \<le> resolves c + max_num_tries"
    and "connects (op_conn s) \<le> connects c + max_num_tries"
    and "sleeps (op_conn s) \<le> sleeps c + max_num_tries"
    and "r = Completed ec s \<Longrightarrow> num_tries s = max_num_tries \<Longrightarrow> ec = pool_retries_exhausted"
    by (auto simp: within_def)
qed

text \<open>One failed try on an unconnected entry ends in \<^verbatim>\<open>continue\<close>.\<close>

lemma failed_try_continues:
  assumes "try_failed f" and "state (op_conn s) = not_connected"
  shows "\<exists>s1. attempt p (try_script f @ rest) s = Continue s1 rest
           \<and> state (op_conn s1) = not_connected
           \<and> locked (op_conn s1) = locked (op_conn s)
           \<and> op_g s1 = op_g s \<and> num_tries s1 = num_tries s
           \<and> resolver_calls (resolver (op_conn s1))
                = resolver_calls (resolver (op_conn s))
                    @ [(hostname (how_to_connect p), port (how_to_connect p))]
           \<and> conn_calls (conn (op_conn s1)) = conn_calls (conn (op_conn s)) @ try_connects p f
           \<and> sleeps (op_conn s1) = Suc (sleeps (op_conn s))"
proof (cases f)
  case (Resolve_fails ec w)
  with assms show ?thesis
    by (simp add: try_defs start_defs Let_def done_with_def count_defs timer_async_wait_def
          expires_after_def)
next
  case (Connect_fails e es ec msg)
  with assms show ?thesis
    by (simp add: try_defs start_defs Let_def done_with_def resolved_def connect_failed_def
          failed_def count_defs timer_async_wait_def expires_after_def)
qed

lemma failed_tries_loop:
  assumes "list_all try_failed fs" and "state (op_conn s) = not_connected"
    and "num_tries s + length fs \<le> max_num_tries"
  shows "\<exists>s'. setup_loop p (concat (map try_script fs) @ rest) s = setup_loop p rest s'
           \<and> state (op_conn s') = not_connected
           \<and> locked (op_conn s') = locked (op_conn s)
           \<and> op_g s' = op_g s \<and> num_tries s' = num_tries s + length fs
           \<and> resolver_calls (resolver (op_conn s'))
                = resolver_calls (resolver (op_conn s))
                    @ replicate (length fs) (hostname (how_to_connect p), port (how_to_connect p))
           \<and> conn_calls (conn (op_conn s'))
                = conn_calls (conn (op_conn s)) @ concat (map (try_connects p) fs)
           \<and> sleeps (op_conn s') = sleeps (op_conn s) + length fs"
  using assms
proof (induction fs arbitrary: s)
  case Nil
  then show ?case by (intro exI [of _ s]) simp
next
  case (Cons f fs)
  from Cons.prems have f: "try_failed f" and fs: "list_all try_failed fs"
    and lt: "num_tries s < max_num_tries" by simp_all
  from failed_try_continues [OF f Cons.prems(2), of p "concat (map try_script fs) @ rest"]
  obtain s1 where a: "attempt p (try_script f @ concat (map try_script fs) @ rest) s
                        = Continue s1 (concat (map try_script fs) @ rest)"
    and s1: "state (op_conn s1) = not_connected" "locked (op_conn s1) = locked (op_conn s)"
      "op_g s1 = op_g s" "num_tries s1 = num_tries s"
      "resolver_calls (resolver (op_conn s1))
         = resolver_calls (resolver (op_conn s))
             @ [(hostname (how_to_connect p), port (how_to_connect p))]"
      "conn_calls (conn (op_conn s1)) = conn_calls (conn (op_conn s)) @ try_connects p f"
      "sleeps (op_conn s1) = Suc (sleeps (op_conn s))"
    by (elim exE conjE) (rule that)
  let ?s2 = "s1\<lparr>num_tries := Suc (num_tries s1)\<rparr>"
  from a lt have unfold: "setup_loop p (concat (map try_script (f # fs)) @ rest) s
                  = setup_loop p (concat (map try_script fs) @ rest) ?s2"
    by (simp add: setup_loop.simps [of p "try_script f @ concat (map try_script fs) @ rest" s])
  from s1 Cons.prems have "state (op_conn ?s2) = not_connected"
    and "num_tries ?s2 + length fs \<le> max_num_tries" by simp_all
  from Cons.IH [OF fs this]
  obtain s' where "setup_loop p (concat (map try_script fs) @ rest) ?s2 = setup_loop p rest s'"
    and "state (op_conn s') = not_connected"
    and "locked (op_conn s') = locked (op_conn ?s2)"
    and "op_g s' = op_g ?s2" and "num_tries s' = num_tries ?s2 + length fs"
    and "resolver_calls (resolver (op_conn s'))
                = resolver_calls (resolver (op_conn ?s2))
                    @ replicate (length fs) (hostname (how_to_connect p), port (how_to_connect p))"
    and "conn_calls (conn (op_conn s'))
                = conn_calls (conn (op_conn ?s2)) @ concat (map (try_connects p) fs)"
    and "sleeps (op_conn s') = sleeps (op_conn ?s2) + length fs"
    by (elim exE conjE) (rule that)
  with unfold s1 show ?case
    by (intro exI [of _ s']) (simp add: count_defs)
qed


text \<open>A pass on an idle entry whose ping fails, when the sleep is not cancelled.\<close>

lemma stale_try_continues:
  assumes "state (op_conn s) = iddle" and "failed (err c1)" and "\<not> failed (err c3)"
  shows "attempt p (c1 # c2 # c3 # rest) s
           = Continue (start_sleep (recreate_conn p
               (start_conn_call async_close (start_conn_call async_ping s)))) rest"
  using assms by (simp add: try_defs Let_def start_defs)

lemma stale_then_failed_tries:
  assumes c: "state c = iddle" "locked c" and ping: "failed (err c1)" and sleep: "\<not> failed (err c3)"
    and fs: "list_all try_failed fs" and len: "Suc (length fs) = max_num_tries"
  shows "\<exists>s'. async_setup p c d (c1 # c2 # c3 # concat (map try_script fs) @ rest)
                 = Completed pool_retries_exhausted s'
              \<and> num_tries s' = max_num_tries
              \<and> state (op_conn s') = not_connected \<and> \<not> locked (op_conn s')
              \<and> resolver_calls (resolver (op_conn s'))
                   = resolver_calls (resolver c)
                       @ replicate (length fs)
                           (hostname (how_to_connect p), port (how_to_connect p))
              \<and> conn_calls (conn (op_conn s')) = concat (map (try_connects p) fs)
              \<and> sleeps (op_conn s') = sleeps c + max_num_tries"
proof -
  let ?s0 = "new_setup_op c d"
  let ?s1 = "start_sleep (recreate_conn p
               (start_conn_call async_close (start_conn_call async_ping ?s0)))"
  let ?s2 = "?s1\<lparr>num_tries := Suc (num_tries ?s1)\<rparr>"
  let ?cs = "concat (map try_script fs) @ rest"
  from c have "state (op_conn ?s0) = iddle" by (simp add: new_setup_op_def)
  from stale_try_continues [OF this ping sleep, of p c2 ?cs]
  have a: "attempt p (c1 # c2 # c3 # ?cs) ?s0 = Continue ?s1 ?cs" .
  from len have "num_tries ?s0 < max_num_tries" by (simp add: new_setup_op_def)
  with a have first: "setup_loop p (c1 # c2 # c3 # ?cs) ?s0 = setup_loop p ?cs ?s2"
    by (simp add: setup_loop.simps [of p "c1 # c2 # c3 # ?cs" ?s0])
  have s2: "state (op_conn ?s2) = not_connected" "op_g ?s2" "num_tries ?s2 = 1"
    "resolver (op_conn ?s2) = resolver c" "conn_calls (conn (op_conn ?s2)) = []"
    "sleeps (op_conn ?s2) = Suc (sleeps c)"
    by (simp_all add: start_defs new_setup_op_def new_tcp_ssl_connection_def count_defs
          timer_async_wait_def expires_after_def)
  from len s2 have "num_tries ?s2 + length fs \<le> max_num_tries" by simp
  from failed_tries_loop [OF fs s2(1) this, of p rest]
  obtain s3 where loop: "setup_loop p ?cs ?s2 = setup_loop p rest s3"
    and s3: "state (op_conn s3) = not_connected"
      "op_g s3 = op_g ?s2" "num_tries s3 = num_tries ?s2 + length fs"
      "resolver_calls (resolver (op_conn s3))
         = resolver_calls (resolver (op_conn ?s2))
             @ replicate (length fs) (hostname (how_to_connect p), port (how_to_connect p))"
      "conn_calls (conn (op_conn s3))
         = conn_calls (conn (op_conn ?s2)) @ concat (map (try_connects p) fs)"
      "sleeps (op_conn s3) = sleeps (op_conn ?s2) + length fs"
    by (elim exE conjE) (rule that)
  from len s2 s3 have full: "num_tries s3 = max_num_tries" by simp
  then have "setup_loop p rest s3 = Completed pool_retries_exhausted (g_reset s3)"
    by (simp add: setup_loop.simps [of p rest s3] complete_def)
  with first loop c have "async_setup p c d (c1 # c2 # c3 # ?cs)
                      = Completed pool_retries_exhausted (g_reset s3)"
    by (simp add: async_setup_def new_setup_op_def)
  moreover from s2 s3 full len
  have "num_tries (g_reset s3) = max_num_tries"
    and "state (op_conn (g_reset s3)) = not_connected" and "\<not> locked (op_conn (g_reset s3))"
    and "resolver_calls (resolver (op_conn (g_reset s3)))
           = resolver_calls (resolver c)
               @ replicate (length fs) (hostname (how_to_connect p), port (how_to_connect p))"
    and "conn_calls (conn (op_conn (g_reset s3))) = concat (map (try_connects p) fs)"
    and "sleeps (op_conn (g_reset s3)) = sleeps c + max_num_tries"
    by (simp_all add: g_reset_def count_defs)
  ultimately show ?thesis by blast
qed

lemma failed_tries_exhaust:
  assumes c: "state c = not_connected" "locked c"
    and fs: "list_all try_failed fs" and len: "length fs = max_num_tries"
  shows "\<exists>s'. async_setup p c d (concat (map try_script fs) @ rest)
                 = Completed pool_retries_exhausted s'
              \<and> num_tries s' = max_num_tries
              \<and> state (op_conn s') = not_connected \<and> \<not> locked (op_conn s')
              \<and> resolver_calls (resolver (op_conn s'))
                   = resolver_calls (resolver c)
                       @ replicate max_num_tries
                           (hostname (how_to_connect p), port (how_to_connect p))
              \<and> conn_calls (conn (op_conn s'))
                   = conn_calls (conn c) @ concat (map (try_connects p) fs)
              \<and> sleeps (op_conn s') = sleeps c + max_num_tries"
proof -
  let ?s0 = "new_setup_op c d"
  from c len have "state (op_conn ?s0) = not_connected"
    and "num_tries ?s0 + length fs \<le> max_num_tries"
    by (simp_all add: new_setup_op_def)
  from failed_tries_loop [OF fs this, of p rest]
  obtain s1 where loop: "setup_loop p (concat (map try_script fs) @ rest) ?s0 = setup_loop p rest s1"
    and s1: "state (op_conn s1) = not_connected"
      "op_g s1 = op_g ?s0" "num_tries s1 = num_tries ?s0 + length fs"
      "resolver_calls (resolver (op_conn s1))
         = resolver_calls (resolver (op_conn ?s0))
             @ replicate (length fs) (hostname (how_to_connect p), port (how_to_connect p))"
      "conn_calls (conn (op_conn s1))
         = conn_calls (conn (op_conn ?s0)) @ concat (map (try_connects p) fs)"
      "sleeps (op_conn s1) = sleeps (op_conn ?s0) + length fs"
    by (elim exE conjE) (rule that)
  from len s1 have full: "num_tries s1 = max_num_tries" by (simp add: new_setup_op_def)
  then have "setup_loop p rest s1 = Completed pool_retries_exhausted (g_reset s1)"
    by (simp add: setup_loop.simps [of p rest s1] complete_def)
  with loop c have "async_setup p c d (concat (map try_script fs) @ rest)
                      = Completed pool_retries_exhausted (g_reset s1)"
    by (simp add: async_setup_def new_setup_op_def)
  moreover from s1 full len
  have "num_tries (g_reset s1) = max_num_tries"
    and "state (op_conn (g_reset s1)) = not_connected" and "\<not> locked (op_conn (g_reset s1))"
    and "resolver_calls (resolver (op_conn (g_reset s1)))
           = resolver_calls (resolver c)
               @ replicate max_num_tries (hostname (how_to_connect p), port (how_to_connect p))"
    and "conn_calls (conn (op_conn (g_reset s1)))
           = conn_calls (conn c) @ concat (map (try_connects p) fs)"
    and "sleeps (op_conn (g_reset s1)) = sleeps c + max_num_tries"
    by (simp_all add: g_reset_def new_setup_op_def count_defs)
  ultimately show ?thesis by blast
qed

lemma exhausted_run:
  "async_setup empty_pool (ex_entry not_connected True) []
     (concat (map try_script (replicate 10 refused)))
     = Completed pool_retries_exhausted exhausted_op"
  by code_simp

text \<open>
  Claim C4 has a setup in which every attempt fails complete with
  \<^verbatim>\<open>pool_retries_exhausted\<close>. On the unconnected example entry, with ten tries in which
  the host resolves and the connect is refused, and the sleep after the tenth cancelled,
  the setup makes \<^verbatim>\<open>max_num_tries\<close> connects and completes with \<^verbatim>\<open>operation_aborted\<close>.
\<close>

theorem tenth_sleep_cancelled:
  "async_setup empty_pool (ex_entry not_connected True) [] tenth_cancelled_script
     = Completed operation_aborted (exhausted_op\<lparr>num_tries := 9\<rparr>)
   \<and> connects (op_conn (exhausted_op\<lparr>num_tries := 9\<rparr>)) = max_num_tries"
  by code_simp

text \<open>
  Claim C4, amended: \<^verbatim>\<open>max_num_tries\<close> is 10 and a setup never makes more than that many
  tries: the counter stays within the bound, at most \<^verbatim>\<open>max_num_tries\<close> resolves, connects
  and sleeps are started, and a setup that completes with the counter at the bound
  completes with \<^verbatim>\<open>pool_retries_exhausted\<close>. When every try fails and every sleep that
  follows a failed connect or ping completes without an error, the setup completes with
  \<^verbatim>\<open>pool_retries_exhausted\<close> after exactly \<^verbatim>\<open>max_num_tries\<close> tries: on an unconnected
  entry after \<^verbatim>\<open>max_num_tries\<close> resolves and one connect for each try whose resolve
  succeeded, on an idle entry after the failed ping and \<^verbatim>\<open>max_num_tries - 1\<close> further
  tries.
\<close>

theorem setup_bounded_retries:
  "max_num_tries = 10
   \<and> (async_setup p c d cs = Completed ec s \<longrightarrow>
        num_tries s \<le> max_num_tries
        \<and> resolves (op_conn s) \<le> resolves c + max_num_tries
        \<and> connects (op_conn s) \<le> connects c + max_num_tries
        \<and> sleeps (op_conn s) \<le> sleeps c + max_num_tries
        \<and> (num_tries s = max_num_tries \<longrightarrow> ec = pool_retries_exhausted))
   \<and> (state c = not_connected \<and> locked c \<and> list_all try_failed fs
        \<and> length fs = max_num_tries \<longrightarrow>
        (\<exists>s'. async_setup p c d (concat (map try_script fs) @ rest)
                 = Completed pool_retries_exhausted s'
              \<and> num_tries s' = max_num_tries
              \<and> state (op_conn s') = not_connected \<and> \<not> locked (op_conn s')
              \<and> resolver_calls (resolver (op_conn s'))
                   = resolver_calls (resolver c)
                       @ replicate max_num_tries
                           (hostname (how_to_connect p), port (how_to_connect p))
              \<and> conn_calls (conn (op_conn s'))
                   = conn_calls (conn c) @ concat (map (try_connects p) fs)
              \<and> sleeps (op_conn s') = sleeps c + max_num_tries))
   \<and> (state c = iddle \<and> locked c \<and> failed (err c_ping) \<and> \<not> failed (err c_sleep)
        \<and> list_all try_failed fs \<and> Suc (length fs) = max_num_tries \<longrightarrow>
        (\<exists>s'. async_setup p c d (c_ping # c_close # c_sleep # concat (map try_script fs) @ rest)
                 = Completed pool_retries_exhausted s'
              \<and> num_tries s' = max_num_tries
              \<and> state (op_conn s') = not_connected \<and> \<not> locked (op_conn s')
              \<and> resolver_calls (resolver (op_conn s'))
                   = resolver_calls (resolver c)
                       @ replicate (length fs)
                           (hostname (how_to_connect p), port (how_to_connect p))
              \<and> conn_calls (conn (op_conn s')) = concat (map (try_connects p) fs)
              \<and> sleeps (op_conn s') = sleeps c + max_num_tries))"
proof (intro conjI impI)
  show "max_num_tries = 10" by (simp add: max_num_tries_def)
next
  assume "async_setup p c d cs = Completed ec s"
  then have run: "setup_loop p cs (new_setup_op c d) = Completed ec s"
    by (simp add: async_setup_def Let_def split: if_splits)
  from setup_loop_bounded [OF run]
  show "num_tries s \<le> max_num_tries"
    and "resolves (op_conn s) \<le> resolves c + max_num_tries"
    and "connects (op_conn s) \<le> connects c + max_num_tries"
    and "sleeps (op_conn s) \<le> sleeps c + max_num_tries"
    by simp_all
  assume "num_tries s = max_num_tries"
  with setup_loop_bounded(5) [OF run] run show "ec = pool_retries_exhausted" by simp
next
  assume "state c = not_connected \<and> locked c \<and> list_all try_failed fs
            \<and> length fs = max_num_tries"
  then show "\<exists>s'. async_setup p c d (concat (map try_script fs) @ rest)
                 = Completed pool_retries_exhausted s'
              \<and> num_tries s' = max_num_tries
              \<and> state (op_conn s') = not_connected \<and> \<not> locked (op_conn s')
              \<and> resolver_calls (resolver (op_conn s'))
                   = resolver_calls (resolver c)
                       @ replicate max_num_tries
                           (hostname (how_to_connect p), port (how_to_connect p))
              \<and> conn_calls (conn (op_conn s'))
                   = conn_calls (conn c) @ concat (map (try_connects p) fs)
              \<and> sleeps (op_conn s') = sleeps c + max_num_tries"
    using failed_tries_exhaust by blast
next
  assume "state c = iddle \<and> locked c \<and> failed (err c_ping) \<and> \<not> failed (err c_sleep)
        \<and> list_all try_failed fs \<and> Suc (length fs) = max_num_tries"
  then show "\<exists>s'. async_setup p c d (c_ping # c_close # c_sleep # concat (map try_script fs) @ rest)
                 = Completed pool_retries_exhausted s'
              \<and> num_tries s' = max_num_tries
              \<and> state (op_conn s') = not_connected \<and> \<not> locked (op_conn s')
              \<and> resolver_calls (resolver (op_conn s'))
                   = resolver_calls (resolver c)
                       @ replicate (length fs)
                           (hostname (how_to_connect p), port (how_to_connect p))
              \<and> conn_calls (conn (op_conn s')) = concat (map (try_connects p) fs)
              \<and> sleeps (op_conn s') = sleeps c + max_num_tries"
    using stale_then_failed_tries by blast
qed

theorem setup_bounded_retries_witness:
  "async_setup empty_pool (ex_entry not_connected True) []
     (concat (map try_script (replicate 10 refused)))
     = Completed pool_retries_exhausted exhausted_op
   \<and> state (ex_entry not_connected True) = not_connected \<and> locked (ex_entry not_connected True)
   \<and> list_all try_failed (replicate 10 refused) \<and> length (replicate 10 refused) = max_num_tries
   \<and> num_tries exhausted_op = max_num_tries
   \<and> connects (op_conn exhausted_op) \<le> connects (ex_entry not_connected True) + max_num_tries
   \<and> conn_calls (conn (op_conn exhausted_op))
        = concat (map (try_connects empty_pool) (replicate 10 refused))
   \<and> state (ex_entry iddle True) = iddle \<and> locked (ex_entry iddle True)
   \<and> failed (err (done_with (other_error 2))) \<and> \<not> failed (err (done_with no_error))
   \<and> list_all try_failed (replicate 9 refused) \<and> Suc (length (replicate 9 refused)) = max_num_tries
   \<and> (\<exists>s'. async_setup empty_pool (ex_entry iddle True) []
              (done_with (other_error 2) # done_with (other_error 3) # done_with no_error
                 # concat (map try_script (replicate 9 refused)) @ [])
            = Completed pool_retries_exhausted s'
          \<and> conn_calls (conn (op_conn s')) = concat (map (try_connects empty_pool) (replicate 9 refused)))"
proof -
  have c: "state (ex_entry not_connected True) = not_connected" "locked (ex_entry not_connected True)"
    "state (ex_entry iddle True) = iddle" "locked (ex_entry iddle True)"
    by (simp_all add: ex_entry_def new_pooled_connection_def)
  have fs: "list_all try_failed (replicate 10 refused)" "length (replicate 10 refused) = max_num_tries"
    "list_all try_failed (replicate 9 refused)" "Suc (length (replicate 9 refused)) = max_num_tries"
    by (simp_all add: refused_def failed_def max_num_tries_def list_all_length)
  have e: "failed (err (done_with (other_error 2)))" "\<not> failed (err (done_with no_error))"
    by (simp_all add: done_with_def failed_def)
  have n: "num_tries exhausted_op = max_num_tries" by (simp add: exhausted_op_def max_num_tries_def)
  from setup_bounded_retries [where p = empty_pool and c = "ex_entry not_connected True"
      and d = "[]" and cs = "concat (map try_script (replicate 10 refused))"
      and ec = pool_retries_exhausted and s = exhausted_op and fs = "replicate 10 refused"
      and rest = "[]"]
    exhausted_run c fs n
  have a: "connects (op_conn exhausted_op) \<le> connects (ex_entry not_connected True) + max_num_tries"
    and b: "conn_calls (conn (op_conn exhausted_op))
        = concat (map (try_connects empty_pool) (replicate 10 refused))"
    by (simp_all add: ex_entry_def new_pooled_connection_def new_tcp_ssl_connection_def)
  from setup_bounded_retries [where p = empty_pool and c = "ex_entry iddle True" and d = "[]"
      and fs = "replicate 9 refused" and rest = "[]" and c_ping = "done_with (other_error 2)"
      and c_close = "done_with (other_error 3)" and c_sleep = "done_with no_error"]
    c fs e
  have "\<exists>s'. async_setup empty_pool (ex_entry iddle True) []
              (done_with (other_error 2) # done_with (other_error 3) # done_with no_error
                 # concat (map try_script (replicate 9 refused)) @ [])
            = Completed pool_retries_exhausted s'
          \<and> conn_calls (conn (op_conn s')) = concat (map (try_connects empty_pool) (replicate 9 refused))"
    by blast
  with exhausted_run a b c fs e n show ?thesis by simp
qed

section \<open>Recreating the session of a stale entry\<close>

text \<open>
  Claim C5: on an idle, locked entry whose ping fails, the setup starts a close on the
  session and does not read its result, replaces the session by a newly constructed one
  on the resolver's executor and the pool's TLS context, keeps the resolver and the timer,
  sets the state to \<^verbatim>\<open>not_connected\<close> and sleeps for \<^verbatim>\<open>between_tries\<close>; when the sleep ends
  without error and the next resolve and connect succeed, the setup succeeds on the new
  session, whose only operation is that connect.
\<close>

theorem stale_session_recreated:
  assumes "state c = iddle" and "locked c"
    and "failed (err c_ping)" and "\<not> failed (err c_sleep)"
    and "\<not> failed (err c_res)" and "endpoints c_res = e # es" and "\<not> failed (err c_conn)"
  shows "attempt p [c_ping] (new_setup_op c d)
           = Break (Suspended ((new_setup_op c d)
               \<lparr>op_conn := c\<lparr>conn := (conn c)
                  \<lparr>conn_calls := conn_calls (conn c) @ [async_ping, async_close]\<rparr>\<rparr>\<rparr>))
         \<and> attempt p (c_ping # c_close # c_sleep # rest) (new_setup_op c d)
           = Continue ((new_setup_op c d)
               \<lparr>op_conn := c
                  \<lparr>state := not_connected,
                   conn := new_tcp_ssl_connection (resolver_executor (resolver c)) (ssl_ctx p),
                   timer := timer_async_wait (expires_after between_tries (timer c))\<rparr>\<rparr>) rest
         \<and> async_setup p c d (c_ping # c_close # c_sleep # c_res # c_conn # rest)
           = Completed no_error
               \<lparr>op_conn =
                  \<lparr>state = in_use, locked = False,
                   conn = (new_tcp_ssl_connection (resolver_executor (resolver c)) (ssl_ctx p))
                     \<lparr>conn_calls := [async_connect e (hparams (how_to_connect p))]\<rparr>,
                   resolver = (resolver c)
                     \<lparr>resolver_calls := resolver_calls (resolver c)
                        @ [(hostname (how_to_connect p), port (how_to_connect p))]\<rparr>,
                   timer = timer_async_wait (expires_after between_tries (timer c))\<rparr>,
                op_diag = [], num_tries = 1, op_g = False\<rparr>"
proof (intro conjI)
  let ?s0 = "new_setup_op c d"
  let ?s1 = "start_sleep (recreate_conn p
               (start_conn_call async_close (start_conn_call async_ping ?s0)))"
  let ?s2 = "?s1\<lparr>num_tries := Suc (num_tries ?s1)\<rparr>"
  from assms(1) have st: "state (op_conn ?s0) = iddle" by (simp add: new_setup_op_def)
  from assms(1,3) show "attempt p [c_ping] ?s0
           = Break (Suspended (?s0
               \<lparr>op_conn := c\<lparr>conn := (conn c)
                  \<lparr>conn_calls := conn_calls (conn c) @ [async_ping, async_close]\<rparr>\<rparr>\<rparr>))"
    by (simp add: try_defs Let_def start_defs new_setup_op_def)
  have a: "attempt p (c_ping # c_close # c_sleep # cs) ?s0 = Continue ?s1 cs" for cs
    using stale_try_continues [OF st assms(3,4)] .
  then show "attempt p (c_ping # c_close # c_sleep # rest) ?s0
           = Continue (?s0
               \<lparr>op_conn := c
                  \<lparr>state := not_connected,
                   conn := new_tcp_ssl_connection (resolver_executor (resolver c)) (ssl_ctx p),
                   timer := timer_async_wait (expires_after between_tries (timer c))\<rparr>\<rparr>) rest"
    by (simp add: start_defs new_setup_op_def)
  have lt: "num_tries ?s0 < max_num_tries" "num_tries ?s2 < max_num_tries"
    by (simp_all add: new_setup_op_def max_num_tries_def start_defs)
  have first: "setup_loop p (c_ping # c_close # c_sleep # c_res # c_conn # rest) ?s0
                 = setup_loop p (c_res # c_conn # rest) ?s2"
    using a [of "c_res # c_conn # rest"] lt(1)
    by (simp add: setup_loop.simps [of p "c_ping # c_close # c_sleep # c_res # c_conn # rest" ?s0])
  have "state (op_conn ?s2) = not_connected" by (simp add: start_defs)
  with assms(5,6,7) have "attempt p (c_res # c_conn # rest) ?s2
       = Break (complete_ok ((start_conn_call (async_connect e (hparams (how_to_connect p)))
            (start_resolve p ?s2))\<lparr>op_diag := diag_out c_conn\<rparr>))"
    by (simp add: try_defs Let_def)
  with lt(2) have "setup_loop p (c_res # c_conn # rest) ?s2
       = complete_ok ((start_conn_call (async_connect e (hparams (how_to_connect p)))
            (start_resolve p ?s2))\<lparr>op_diag := diag_out c_conn\<rparr>)"
    by (simp add: setup_loop.simps [of p "c_res # c_conn # rest" ?s2])
  with first assms(1,2)
  show "async_setup p c d (c_ping # c_close # c_sleep # c_res # c_conn # rest)
           = Completed no_error
               \<lparr>op_conn =
                  \<lparr>state = in_use, locked = False,
                   conn = (new_tcp_ssl_connection (resolver_executor (resolver c)) (ssl_ctx p))
                     \<lparr>conn_calls := [async_connect e (hparams (how_to_connect p))]\<rparr>,
                   resolver = (resolver c)
                     \<lparr>resolver_calls := resolver_calls (resolver c)
                        @ [(hostname (how_to_connect p), port (how_to_connect p))]\<rparr>,
                   timer = timer_async_wait (expires_after between_tries (timer c))\<rparr>,
                op_diag = [], num_tries = 1, op_g = False\<rparr>"
    by (simp add: async_setup_def complete_defs start_defs new_setup_op_def
          new_tcp_ssl_connection_def)
qed

theorem stale_session_recreated_witness:
  "state (ex_entry iddle True) = iddle \<and> locked (ex_entry iddle True)
   \<and> failed (err (done_with (other_error 2))) \<and> \<not> failed (err (done_with no_error))
   \<and> \<not> failed (err (resolved [''127.0.0.1:3306'']))
   \<and> endpoints (resolved [''127.0.0.1:3306'']) = ''127.0.0.1:3306'' # []
   \<and> async_setup empty_pool (ex_entry iddle True) [] healing_script
       = Completed no_error
           \<lparr>op_conn =
              \<lparr>state = in_use, locked = False,
               conn = \<lparr>conn_executor = 1, conn_ssl_ctx = 2,
                       conn_calls = [async_connect ''127.0.0.1:3306'' ''root'']\<rparr>,
               resolver = \<lparr>resolver_executor = 1, resolver_calls = [(''db'', ''3306'')]\<rparr>,
               timer = \<lparr>timer_executor = 1, expiry = Some 1000, waits = 1\<rparr>\<rparr>,
            op_diag = [], num_tries = 1, op_g = False\<rparr>
   \<and> attempt empty_pool [done_with (other_error 2)] (new_setup_op (ex_entry iddle True) [])
       = Break (Suspended
           \<lparr>op_conn =
              \<lparr>state = iddle, locked = True,
               conn = \<lparr>conn_executor = 1, conn_ssl_ctx = 2,
                       conn_calls = [async_ping, async_close]\<rparr>,
               resolver = \<lparr>resolver_executor = 1, resolver_calls = []\<rparr>,
               timer = \<lparr>timer_executor = 1, expiry = None, waits = 0\<rparr>\<rparr>,
            op_diag = [], num_tries = 0, op_g = True\<rparr>)"
proof -
  have c: "state (ex_entry iddle True) = iddle" "locked (ex_entry iddle True)"
    by (simp_all add: ex_entry_def new_pooled_connection_def)
  have e: "failed (err (done_with (other_error 2)))" "\<not> failed (err (done_with no_error))"
    "\<not> failed (err (resolved [''127.0.0.1:3306'']))"
    "endpoints (resolved [''127.0.0.1:3306'']) = ''127.0.0.1:3306'' # []"
    by (simp_all add: done_with_def resolved_def failed_def)
  from stale_session_recreated [OF c e(1,2,3,4,2), of empty_pool "[]" "done_with (other_error 3)" "[]"]
    c e
  show ?thesis
    by (simp add: healing_script_def ex_entry_def new_pooled_connection_def empty_pool_def
          ex_params_def new_tcp_ssl_connection_def new_resolver_def new_steady_timer_def
          timer_async_wait_def expires_after_def between_tries_def new_setup_op_def)
qed

section \<open>Errors of the sleep between tries\<close>

text \<open>
  Claim C8 has the error of a cancelled sleep end the setup on every retry path. On the
  path taken after a failed resolve the result of the sleep is not read: with a resolve
  that fails, a sleep that completes with \<^verbatim>\<open>operation_aborted\<close>, and then a resolve and a
  connect that succeed, the setup goes on to the second try and completes with success.
  On the two other retry paths, after a failed connect and after a failed ping, the same
  cancelled sleep ends the setup with \<^verbatim>\<open>operation_aborted\<close>.
\<close>

theorem resolve_retry_ignores_sleep_error:
  "async_setup empty_pool (ex_entry not_connected True) [] cancelled_sleep_script
     = Completed no_error cancelled_sleep_end
   \<and> err (cancelled_sleep_script ! 1) = operation_aborted
   \<and> completion_code
        (async_setup empty_pool (ex_entry not_connected True) [] aborted_setup_script)
       = Some operation_aborted
   \<and> completion_code (async_setup empty_pool (ex_entry iddle True) [] (tl stale_script))
       = Some operation_aborted"
  by code_simp

end
